theory Spec2Isabelle
  imports Main
begin

section \<open>The C library functions that dash.c relies on\<close>

text \<open>
  A C string is modelled by the list of the characters in front of its terminating NUL.
  The C type \<open>int\<close> is modelled by \<open>int\<close>: every counter of the program is bounded by
  the length of the input line, and lines are taken to be shorter than \<open>2^31\<close> bytes.
  Heap buffers are taken to be large enough for what is stored in them; allocation sizes
  are not part of the model.
\<close>

text \<open>\<open>isspace\<close> in the C locale: space, \<open>\t\<close>, \<open>\n\<close>, \<open>\v\<close>, \<open>\f\<close>, \<open>\r\<close>.\<close>

definition isspace :: "char \<Rightarrow> bool" where
  "isspace c = (c \<in> set [CHR '' '', CHR 0x09, CHR 0x0A, CHR 0x0B, CHR 0x0C, CHR 0x0D])"

text \<open>\<open>strchr s c\<close>: the suffix of \<open>s\<close> that starts at the first \<open>c\<close>, or NULL.\<close>

fun strchr :: "string \<Rightarrow> char \<Rightarrow> string option" where
  "strchr [] c = None"
| "strchr (x # xs) c = (if x = c then Some (x # xs) else strchr xs c)"

text \<open>
  \<open>strtok str delim\<close> with its hidden save pointer made explicit: the third argument is
  the text the save pointer points to, and the result is the token (or NULL) together with
  the new save pointer. Leading delimiters are skipped; the token runs up to the next
  delimiter, which is overwritten by NUL, and the save pointer is set behind it (or to the
  end of the string, when the token runs up to the end).
\<close>

definition strtok :: "string option \<Rightarrow> string \<Rightarrow> string \<Rightarrow> string option \<times> string" where
  "strtok str delim saved =
     (let s = dropWhile (\<lambda>c. c \<in> set delim) (case str of Some x \<Rightarrow> x | None \<Rightarrow> saved)
      in if s = [] then (None, [])
         else (Some (takeWhile (\<lambda>c. c \<notin> set delim) s),
               drop 1 (dropWhile (\<lambda>c. c \<notin> set delim) s)))"

lemma strchr_length: "strchr xs c = Some s \<Longrightarrow> length s \<le> length xs"
  by (induction xs) (auto split: if_splits)

lemma strtok_saved_shorter:
  "strtok None delim saved = (Some t, saved') \<Longrightarrow> length saved' < length saved"
proof -
  assume a: "strtok None delim saved = (Some t, saved')"
  define s where "s = dropWhile (\<lambda>c. c \<in> set delim) saved"
  from a have ne: "s \<noteq> []" and sv: "saved' = drop 1 (dropWhile (\<lambda>c. c \<notin> set delim) s)"
    by (auto simp: strtok_def s_def Let_def split: if_splits)
  have "length (dropWhile (\<lambda>c. c \<notin> set delim) s) \<le> length s"
    by (rule length_dropWhile_le)
  with ne sv have "length saved' < length s"
    by (cases "dropWhile (\<lambda>c. c \<notin> set delim) s") (auto simp: Suc_le_eq)
  moreover have "length s \<le> length saved"
    unfolding s_def by (rule length_dropWhile_le)
  ultimately show ?thesis by simp
qed

section \<open>Syntax validator\<close>

text \<open>
  The counting loop shared by \<open>check_redirect\<close> and \<open>check_parallel\<close>:
  \<^verbatim>\<open>while (occurence != NULL) { count++; occurence = strchr(occurence + 1, c); }\<close>
\<close>

function count_loop :: "string option \<Rightarrow> char \<Rightarrow> int \<Rightarrow> int" where
  "count_loop None c n = n"
| "count_loop (Some s) c n = count_loop (strchr (drop 1 s) c) c (n + 1)"
  by pat_completeness auto
termination
proof (relation "measure (\<lambda>(occ, c, n). case occ of None \<Rightarrow> 0 | Some s \<Rightarrow> Suc (length s))")
  show "wf (measure (\<lambda>(occ, c, n). case occ of None \<Rightarrow> 0 | Some s \<Rightarrow> Suc (length s)))"
    by simp
next
  fix s :: string and c :: char and n :: int
  show "((strchr (drop 1 s) c, c, n + 1), (Some s, c, n))
          \<in> measure (\<lambda>(occ, c, n). case occ of None \<Rightarrow> 0 | Some s \<Rightarrow> Suc (length s))"
  proof (cases "strchr (drop 1 s) c")
    case None
    then show ?thesis by simp
  next
    case (Some r)
    then have le: "length r \<le> length (drop 1 s)" by (rule strchr_length)
    from Some have "s \<noteq> []" by (cases s) auto
    with le have "length r < length s" by (cases s) auto
    with Some show ?thesis by simp
  qed
qed

text \<open>The loop of \<open>check_redirect\<close> that looks for further file names:
  \<^verbatim>\<open>while (files != NULL) { files = strtok(NULL, " \t\n"); if (files != NULL) redirect_count++; }\<close>
\<close>

function files_loop :: "string option \<Rightarrow> string \<Rightarrow> int \<Rightarrow> int" where
  "files_loop None saved redirect_count = redirect_count"
| "files_loop (Some f) saved redirect_count =
     (case strtok None [CHR '' '', CHR 0x09, CHR 0x0A] saved of
        (None, saved') \<Rightarrow> files_loop None saved' redirect_count
      | (Some g, saved') \<Rightarrow> files_loop (Some g) saved' (redirect_count + 1))"
  by pat_completeness auto
termination
  by (relation "measure (\<lambda>(files, saved, n). case files of None \<Rightarrow> 0 | Some f \<Rightarrow> Suc (length saved))")
     (auto dest: strtok_saved_shorter [OF sym])

definition check_redirect :: "string \<Rightarrow> int" where
  "check_redirect input =
     (let redirect_count = count_loop (strchr input CHR ''>'') CHR ''>'' 0
      in if redirect_count = 1 then
           (case strtok (Some input) ''>'' [] of (before, saved1) \<Rightarrow>
            case strtok None [CHR 0x0A] saved1 of (after, saved2) \<Rightarrow>
              if before = None \<or> after = None then - 1
              else case strtok after '' '' saved2 of (files, saved3) \<Rightarrow>
                     files_loop files saved3 redirect_count)
         else redirect_count)"

definition check_parallel :: "string \<Rightarrow> int" where
  "check_parallel input =
     (let parallel_count = count_loop (strchr input CHR ''&'') CHR ''&'' 0
      in if parallel_count = 1 then
           (case strtok (Some input) ''&'' [] of (before, saved1) \<Rightarrow>
            case strtok before [CHR 0x0A] saved1 of (before', saved2) \<Rightarrow>
              if before' = None then - 1 else parallel_count)
         else parallel_count)"

fun check_empty_input :: "string \<Rightarrow> int" where
  "check_empty_input [] = 1"
| "check_empty_input (c # cs) = (if \<not> isspace c then 0 else check_empty_input cs)"

section \<open>Tokenizer\<close>

text \<open>
  The loop of \<open>parse_input\<close> and of \<open>parse_cmds\<close>:
  \<^verbatim>\<open>while (token != NULL) { arr[n] = token; n++; token = strtok(NULL, delim); }\<close>
  The result is the array in front of its NULL terminator.
\<close>

function token_loop :: "string \<Rightarrow> string option \<Rightarrow> string \<Rightarrow> string list \<Rightarrow> string list" where
  "token_loop delim None saved arr = arr"
| "token_loop delim (Some token) saved arr =
     (case strtok None delim saved of
        (token', saved') \<Rightarrow> token_loop delim token' saved' (arr @ [token]))"
  by pat_completeness auto
termination
  by (relation "measure (\<lambda>(delim, token, saved, arr).
                   case token of None \<Rightarrow> 0 | Some t \<Rightarrow> Suc (length saved))")
     (auto split: option.splits dest: strtok_saved_shorter [OF sym])

definition parse_input :: "string \<Rightarrow> string list" where
  "parse_input input =
     (case strtok (Some input) [CHR '' '', CHR 0x09, CHR 0x0A, CHR ''>''] [] of
        (token, saved) \<Rightarrow> token_loop [CHR '' '', CHR 0x09, CHR 0x0A, CHR ''>''] token saved [])"

definition parse_cmds :: "string \<Rightarrow> string list" where
  "parse_cmds input =
     (case strtok (Some input) ''&'' [] of
        (cmd, saved) \<Rightarrow> token_loop ''&'' cmd saved [])"

section \<open>Arrays, faults and the interpreter state\<close>

datatype fault = Null_dereference | Out_of_bounds

text \<open>
  Reading slot \<open>i\<close> of a NULL-terminated array: an entry, the NULL terminator itself, or
  a read behind the terminator.
\<close>

definition arr_get :: "string list \<Rightarrow> nat \<Rightarrow> fault + string option" where
  "arr_get arr i =
     (if i < length arr then Inr (Some (arr ! i))
      else if i = length arr then Inr None
      else Inl Out_of_bounds)"

definition count_tokens :: "string list \<Rightarrow> int" where
  "count_tokens arr = int (length arr)"

text \<open>A slot of the array \<open>pid_t pid[parallel_cmd + 1]\<close>, which is not initialised.\<close>

datatype pid_slot = Unset | Pid int

text \<open>
  What the interpreter does to the outside world, in order. \<open>Spawned pid arrTok path r\<close>
  stands for a successful \<open>fork\<close> in \<open>exec_command arrTok path r\<close>: the child with that
  pid runs the branch \<open>pid == 0\<close> on these arguments (\<open>exec_command_child\<close> below).
  \<open>Waited\<close> stands for one run of the loop
  \<^verbatim>\<open>do { waitpid(pid[k], &status, WUNTRACED); } while (...)\<close> on the content of one slot;
  each such loop is taken to come to an end.
\<close>

datatype event =
    Error_line
  | Spawned int "string list" "string list" int
  | Waited pid_slot
  | Chdir string

record shell =
  path :: "string list"
  exit_not_called :: int
  forks :: nat
  trace :: "event list"

text \<open>How a call of \<open>process\<close> ends: it returns, the interpreter exits, or it faults.\<close>

datatype outcome = Returned | Exited int | Crashed fault

text \<open>
  The operating system, as far as the program asks it: what the \<open>n\<close>-th call of
  \<open>fork\<close> returns in the parent (negative: no child was created), and whether
  \<open>access(p, X_OK)\<close>, \<open>open(p, O_WRONLY|O_CREAT|O_TRUNC, S_IRWXU)\<close>, \<open>execv(p, argv)\<close>
  and \<open>chdir(p)\<close> succeed.
\<close>

record os =
  fork_pid :: "nat \<Rightarrow> int"
  access_x :: "string \<Rightarrow> bool"
  open_ok :: "string \<Rightarrow> bool"
  execv_ok :: "string \<Rightarrow> bool"
  chdir_ok :: "string \<Rightarrow> bool"

definition error_message :: string where
  "error_message = ''An error has occurred'' @ [CHR 0x0A]"

definition write_error :: "shell \<Rightarrow> shell" where
  "write_error st = st\<lparr>trace := trace st @ [Error_line]\<rparr>"

section \<open>The child process\<close>

text \<open>
  A descriptor table (slot \<open>n\<close> is descriptor \<open>n\<close>) and the writes that reached an open
  descriptor. \<open>open\<close> returns the lowest descriptor that is not open.
\<close>

datatype stream = Stdin | Stdout | Stderr | File string

record proc =
  fds :: "stream option list"
  written :: "(stream \<times> string) list"

definition std_proc :: proc where
  "std_proc = \<lparr>fds = [Some Stdin, Some Stdout, Some Stderr], written = []\<rparr>"

definition close_fd :: "nat \<Rightarrow> proc \<Rightarrow> proc" where
  "close_fd fd p = p\<lparr>fds := (if fd < length (fds p) then (fds p)[fd := None] else fds p)\<rparr>"

definition write_fd :: "nat \<Rightarrow> string \<Rightarrow> proc \<Rightarrow> proc" where
  "write_fd fd msg p =
     (if fd < length (fds p) then
        (case fds p ! fd of
           None \<Rightarrow> p
         | Some s \<Rightarrow> p\<lparr>written := written p @ [(s, msg)]\<rparr>)
      else p)"

fun lowest_free :: "stream option list \<Rightarrow> nat" where
  "lowest_free [] = 0"
| "lowest_free (x # xs) = (if x = None then 0 else Suc (lowest_free xs))"

definition open_file :: "os \<Rightarrow> string \<Rightarrow> proc \<Rightarrow> (nat \<times> proc) option" where
  "open_file os name p =
     (if open_ok os name then
        (let fd = lowest_free (fds p)
         in Some (fd, p\<lparr>fds := (if fd < length (fds p) then (fds p)[fd := Some (File name)]
                                  else fds p @ [Some (File name)])\<rparr>))
      else None)"

definition write_error_child :: "proc \<Rightarrow> proc" where
  "write_error_child p = write_fd 2 error_message p"

text \<open>
  The search loop of \<open>exec_command\<close> over the directories still to be probed; the last
  argument is the content of \<open>path_access\<close>. \<open>None\<close>: the loop has written an error and
  called \<open>exit(1)\<close>. \<open>Some p\<close>: the loop is left with \<open>p\<close> in \<open>path_access\<close>.
\<close>

fun path_loop :: "os \<Rightarrow> string list \<Rightarrow> string \<Rightarrow> int \<Rightarrow> string \<Rightarrow> string option" where
  "path_loop os [] cmd redirection path_access = Some path_access"
| "path_loop os (d # ds) cmd redirection path_access =
     (let path_access' = d @ ''/'' @ cmd
      in if access_x os path_access' then Some path_access'
         else if ds = [] \<and> \<not> access_x os path_access' then
                (if redirection \<noteq> 1 then None
                 else path_loop os ds cmd redirection path_access')
         else path_loop os ds cmd redirection path_access')"

datatype child_end =
    Child_exit int proc
  | Child_exec string "string list" proc
  | Child_crash fault

text \<open>The branch \<open>pid == 0\<close> of \<open>exec_command\<close>: what the child does.\<close>

definition exec_command_child ::
  "os \<Rightarrow> string list \<Rightarrow> string list \<Rightarrow> int \<Rightarrow> proc \<Rightarrow> child_end" where
  "exec_command_child os arrTok pth redirection p =
     (let path_len = count_tokens pth
      in if path_len = 0 then Child_exit 1 (write_error_child p)
         else
           (case arrTok of
              [] \<Rightarrow> Child_crash Null_dereference
            | cmd # rest \<Rightarrow>
                (case path_loop os pth cmd redirection [] of
                   None \<Rightarrow> Child_exit 1 (write_error_child p)
                 | Some path_access \<Rightarrow>
                     if redirection = 1 then
                       (let file_index = nat (count_tokens arrTok - 1);
                            p2 = close_fd 2 (close_fd 1 p)
                        in case open_file os (arrTok ! file_index) p2 of
                             None \<Rightarrow> Child_exit 1 (write_error_child p2)
                           | Some (fd, p3) \<Rightarrow>
                               if execv_ok os path_access
                               then Child_exec path_access (take file_index arrTok) p3
                               else Child_exit 1 (close_fd fd (write_fd fd error_message p3)))
                     else if execv_ok os path_access then Child_exec path_access arrTok p
                     else Child_exit 1 (write_error_child p))))"

section \<open>The parent: launching, waiting, built-in commands\<close>

text \<open>The parent's side of \<open>exec_command\<close>: \<open>fork\<close>, an error line when it fails, and
  the pid is returned either way.\<close>

definition exec_command :: "os \<Rightarrow> string list \<Rightarrow> string list \<Rightarrow> int \<Rightarrow> shell \<Rightarrow> int \<times> shell" where
  "exec_command os arrTok pth redirection st =
     (let pid = fork_pid os (forks st);
          st1 = st\<lparr>forks := Suc (forks st)\<rparr>
      in if pid < 0 then (pid, write_error st1)
         else (pid, st1\<lparr>trace := trace st1 @ [Spawned pid arrTok pth redirection]\<rparr>))"

text \<open>\<open>wait_for_cmds\<close>: the loop over the slots \<open>0, ..., parallel_cmd\<close> of the pid array
  (which has \<open>parallel_cmd + 1\<close> slots).\<close>

definition wait_for_cmds :: "pid_slot list \<Rightarrow> int \<Rightarrow> shell \<Rightarrow> shell" where
  "wait_for_cmds pid parallel_cmd st =
     st\<lparr>trace := trace st @ map (\<lambda>k. Waited (pid ! k)) [0 ..< nat (parallel_cmd + 1)]\<rparr>"

definition built_in_commands :: "string list" where
  "built_in_commands = [''exit'', ''cd'', ''path'']"

definition check_command :: "string list \<Rightarrow> fault + int" where
  "check_command arrTok =
     (case arrTok of
        [] \<Rightarrow> Inl Null_dereference
      | cmd # rest \<Rightarrow> Inr (if cmd \<in> set built_in_commands then 1 else 0))"

definition check_path :: "string list \<Rightarrow> fault + int" where
  "check_path arrTok =
     (case arrTok of
        [] \<Rightarrow> Inl Null_dereference
      | cmd # rest \<Rightarrow> Inr (if cmd = built_in_commands ! 2 then 1 else 0))"

definition dash_exit :: "string list \<Rightarrow> shell \<Rightarrow> outcome \<times> shell" where
  "dash_exit arrTok st =
     (let args = count_tokens arrTok - 1
      in if args \<noteq> 0 then (Returned, write_error st)
         else (Exited 0, st\<lparr>exit_not_called := 0\<rparr>))"

definition dash_exit2 :: "string list \<Rightarrow> int \<Rightarrow> pid_slot list \<Rightarrow> shell \<Rightarrow> outcome \<times> shell" where
  "dash_exit2 arrTok parallel_cmd pid st =
     (let args = count_tokens arrTok - 1
      in if args \<noteq> 0 then (Returned, write_error st)
         else
           (let st1 = st\<lparr>exit_not_called := 0\<rparr>
            in (Exited 0, if parallel_cmd > 0 then wait_for_cmds pid parallel_cmd st1 else st1)))"

definition dash_cd :: "os \<Rightarrow> string list \<Rightarrow> shell \<Rightarrow> outcome \<times> shell" where
  "dash_cd os arrTok st =
     (let args = count_tokens arrTok - 1
      in if args = 0 \<or> args > 1 then (Returned, write_error st)
         else
           (case arr_get arrTok 1 of
              Inl f \<Rightarrow> (Crashed f, st)
            | Inr None \<Rightarrow> (Returned, write_error st)
            | Inr (Some dir) \<Rightarrow>
                if chdir_ok os dir then (Returned, st\<lparr>trace := trace st @ [Chdir dir]\<rparr>)
                else (Returned, write_error st)))"

text \<open>\<open>dash_path\<close>: the new store is the array \<open>arrTok[1], ..., arrTok[args]\<close>.\<close>

definition dash_path :: "string list \<Rightarrow> string list" where
  "dash_path arrTok =
     (if 1 < length arrTok
      then map (\<lambda>i. arrTok ! (i + 1)) [0 ..< nat (count_tokens arrTok - 1)]
      else [])"

definition which_built_in ::
  "os \<Rightarrow> string list \<Rightarrow> int \<Rightarrow> pid_slot list \<Rightarrow> shell \<Rightarrow> outcome \<times> shell" where
  "which_built_in os arrTok parallel_cmd pid st =
     (case arrTok of
        [] \<Rightarrow> (Crashed Null_dereference, st)
      | cmd # rest \<Rightarrow>
          if cmd = built_in_commands ! 0 then
            (if parallel_cmd > 0 then dash_exit2 arrTok parallel_cmd pid st
             else dash_exit arrTok st)
          else if cmd = built_in_commands ! 1 then dash_cd os arrTok st
          else (Returned, st))"

section \<open>Processing one input line\<close>

text \<open>
  One sub-command of a parallel line, from its tokens on (the body of the \<open>for\<close> loop of
  \<open>process\<close> behind \<open>parse_input\<close>). \<open>Returned\<close> means that the loop goes on.
\<close>

definition run_tokens ::
  "os \<Rightarrow> string list \<Rightarrow> int \<Rightarrow> int \<Rightarrow> int \<Rightarrow> pid_slot list \<Rightarrow> shell
     \<Rightarrow> outcome \<times> pid_slot list \<times> shell" where
  "run_tokens os arr redirection parallel_cmd i pid st =
     (case arr_get arr 0 of
        Inl f \<Rightarrow> (Crashed f, pid, st)
      | Inr None \<Rightarrow> (Returned, pid, st)
      | Inr (Some cmd) \<Rightarrow>
          (case check_command arr of
             Inl f \<Rightarrow> (Crashed f, pid, st)
           | Inr is_built_in \<Rightarrow>
               if is_built_in = 1 then
                 (case check_path arr of
                    Inl f \<Rightarrow> (Crashed f, pid, st)
                  | Inr is_path \<Rightarrow>
                      if is_path = 1 then (Returned, pid, st\<lparr>path := dash_path arr\<rparr>)
                      else (case which_built_in os arr parallel_cmd pid st of
                              (oc, st') \<Rightarrow> (oc, pid, st')))
               else
                 (case exec_command os arr (path st) redirection st of
                    (p, st') \<Rightarrow> (Returned, pid[nat i := Pid p], st'))))"

text \<open>One iteration of the \<open>for\<close> loop, from the entry \<open>arrTok[i]\<close> on.\<close>

definition loop_body ::
  "os \<Rightarrow> string option \<Rightarrow> int \<Rightarrow> int \<Rightarrow> pid_slot list \<Rightarrow> shell
     \<Rightarrow> outcome \<times> pid_slot list \<times> shell" where
  "loop_body os entry parallel_cmd i pid st =
     (case entry of
        None \<Rightarrow> (Crashed Null_dereference, pid, st)
      | Some sub \<Rightarrow>
          (let redirection = check_redirect sub
           in if redirection > 1 \<or> redirection < 0 then (Returned, pid, write_error st)
              else run_tokens os (parse_input sub) redirection parallel_cmd i pid st))"

text \<open>
  The loop \<^verbatim>\<open>for (i = 0; i < parallel_cmd + 1; i++)\<close> from index \<open>i\<close> on. It reads
  \<open>arrTok[i]\<close> whatever the number of entries of \<open>arrTok\<close> is.
\<close>

function parallel_loop ::
  "os \<Rightarrow> string list \<Rightarrow> int \<Rightarrow> int \<Rightarrow> pid_slot list \<Rightarrow> shell
     \<Rightarrow> outcome \<times> pid_slot list \<times> shell" where
  "parallel_loop os arrTok parallel_cmd i pid st =
     (if i < parallel_cmd + 1 then
        (case arr_get arrTok (nat i) of
           Inl f \<Rightarrow> (Crashed f, pid, st)
         | Inr entry \<Rightarrow>
             (case loop_body os entry parallel_cmd i pid st of
                (Returned, pid', st') \<Rightarrow> parallel_loop os arrTok parallel_cmd (i + 1) pid' st'
              | (Exited n, pid', st') \<Rightarrow> (Exited n, pid', st')
              | (Crashed f, pid', st') \<Rightarrow> (Crashed f, pid', st')))
      else (Returned, pid, st))"
  by pat_completeness auto
termination
  by (relation "measure (\<lambda>(os, arrTok, parallel_cmd, i, pid, st). nat (parallel_cmd + 1 - i))")
     auto

declare parallel_loop.simps [simp del]

text \<open>
  \<open>process\<close> from the declaration of the array \<open>pid\<close> on (lines 185 to 244). In the
  branch without parallel commands \<open>parse_input\<close> has run on the whole line.
\<close>

definition run_line ::
  "os \<Rightarrow> string list \<Rightarrow> int \<Rightarrow> int \<Rightarrow> shell \<Rightarrow> outcome \<times> shell" where
  "run_line os arrTok parallel_cmd redirection st =
     (let pid = replicate (nat (parallel_cmd + 1)) Unset
      in if parallel_cmd = 0 then
           (case check_command arrTok of
              Inl f \<Rightarrow> (Crashed f, st)
            | Inr is_built_in \<Rightarrow>
                if is_built_in = 1 then
                  (case check_path arrTok of
                     Inl f \<Rightarrow> (Crashed f, st)
                   | Inr is_path \<Rightarrow>
                       if is_path = 1 then (Returned, st\<lparr>path := dash_path arrTok\<rparr>)
                       else which_built_in os arrTok parallel_cmd pid st)
                else
                  (case exec_command os arrTok (path st) redirection st of
                     (p, st') \<Rightarrow> (Returned, wait_for_cmds (pid[0 := Pid p]) parallel_cmd st')))
         else
           (case parallel_loop os arrTok parallel_cmd 0 pid st of
              (Returned, pid', st') \<Rightarrow> (Returned, wait_for_cmds pid' parallel_cmd st')
            | (Exited n, pid', st') \<Rightarrow> (Exited n, st')
            | (Crashed f, pid', st') \<Rightarrow> (Crashed f, st')))"

definition process :: "os \<Rightarrow> string \<Rightarrow> shell \<Rightarrow> outcome \<times> shell" where
  "process os input st =
     (if check_empty_input input = 1 then (Returned, st)
      else
        (let parallel_cmd = check_parallel input
         in if parallel_cmd = - 1 then (Returned, write_error st)
            else if parallel_cmd > 0 then run_line os (parse_cmds input) parallel_cmd (- 1) st
            else
              (let redirection = check_redirect input
               in if redirection > 1 \<or> redirection < 0 then (Returned, write_error st)
                  else run_line os (parse_input input) parallel_cmd redirection st)))"

section \<open>Sample environments\<close>

text \<open>
  An operating system in which \<open>/bin/ls\<close> and \<open>/bin/sleep\<close> are the executable files and
  \<open>/tmp\<close> is the only directory one can change to; what \<open>fork\<close> returns and whether files
  can be opened for writing are left as parameters.
\<close>

definition os_sample :: "(nat \<Rightarrow> int) \<Rightarrow> bool \<Rightarrow> os" where
  "os_sample fk writable =
     \<lparr>fork_pid = fk,
      access_x = (\<lambda>p. p \<in> set [''/bin/ls'', ''/bin/sleep'']),
      open_ok = (\<lambda>p. writable),
      execv_ok = (\<lambda>p. p \<in> set [''/bin/ls'', ''/bin/sleep'']),
      chdir_ok = (\<lambda>p. p = ''/tmp'')\<rparr>"

text \<open>The interpreter at start-up: the store holds \<open>/bin\<close>, nothing has happened yet.\<close>

definition shell0 :: shell where
  "shell0 = \<lparr>path = [''/bin''], exit_not_called = 1, forks = 0, trace = []\<rparr>"

section \<open>Facts about the validator\<close>

lemma count_loop_strchr:
  "count_loop (strchr s c) c n = n + int (count_list s c)"
proof (induction s arbitrary: n)
  case Nil
  show ?case by simp
next
  case (Cons x xs)
  show ?case
  proof (cases "x = c")
    case True
    have "count_loop (strchr (x # xs) c) c n = count_loop (strchr xs c) c (n + 1)"
      using True by simp
    also have "\<dots> = n + 1 + int (count_list xs c)" by (rule Cons.IH)
    finally show ?thesis using True by simp
  next
    case False
    then show ?thesis using Cons.IH [of n] by simp
  qed
qed

lemma check_empty_input_iff: "check_empty_input input = 1 \<longleftrightarrow> list_all isspace input"
  by (induction input) auto

lemma not_space_not_empty:
  "c \<in> set input \<Longrightarrow> \<not> isspace c \<Longrightarrow> check_empty_input input = 0"
  by (induction input) auto

lemma count_list_pos_mem: "0 < count_list s c \<Longrightarrow> c \<in> set s"
  by (induction s) (auto split: if_splits)

lemma amp_not_space: "\<not> isspace CHR ''&''"
  by (simp add: isspace_def)

lemma parallel_many:
  "count_list input CHR ''&'' \<noteq> 1 \<Longrightarrow> check_parallel input = int (count_list input CHR ''&'')"
  by (simp add: check_parallel_def count_loop_strchr Let_def)

text \<open>
  When \<open>check_parallel\<close> returns its sentinel: the line has exactly one separator, and the
  text in front of it (or, when there is none, the text behind it) holds newlines only.
\<close>

lemma single_occurrence_split:
  "count_list s c = 1 \<Longrightarrow>
     s = takeWhile (\<lambda>x. x \<noteq> c) s @ c # drop 1 (dropWhile (\<lambda>x. x \<noteq> c) s) \<and>
     c \<notin> set (drop 1 (dropWhile (\<lambda>x. x \<noteq> c) s))"
proof (induction s)
  case Nil
  then show ?case by simp
next
  case (Cons x xs)
  show ?case
  proof (cases "x = c")
    case True
    with Cons.prems have "count_list xs c = 0" by simp
    then have "c \<notin> set xs" by (simp add: count_list_0_iff)
    with True show ?thesis by simp
  next
    case False
    with Cons show ?thesis by simp
  qed
qed

lemma strtok_null_iff:
  "fst (strtok str delim saved) = None \<longleftrightarrow>
     list_all (\<lambda>c. c \<in> set delim) (case str of Some x \<Rightarrow> x | None \<Rightarrow> saved)"
  by (simp add: strtok_def Let_def dropWhile_eq_Nil_conv list_all_iff)

lemma check_parallel_sentinel_iff:
  "check_parallel input = - 1 \<longleftrightarrow>
     count_list input CHR ''&'' = 1 \<and>
     (let a = takeWhile (\<lambda>x. x \<noteq> CHR ''&'') input;
          b = drop 1 (dropWhile (\<lambda>x. x \<noteq> CHR ''&'') input)
      in list_all (\<lambda>c. c = CHR 0x0A) (if a = [] then b else a))"
proof (cases "count_list input CHR ''&'' = 1")
  case False
  then show ?thesis using parallel_many [of input] by simp
next
  case True
  define a where "a = takeWhile (\<lambda>x. x \<noteq> CHR ''&'') input"
  define b where "b = drop 1 (dropWhile (\<lambda>x. x \<noteq> CHR ''&'') input)"
  from single_occurrence_split [OF True]
  have inp: "input = a @ CHR ''&'' # b" and nb: "CHR ''&'' \<notin> set b"
    by (simp_all add: a_def b_def)
  have na: "CHR ''&'' \<notin> set a"
    unfolding a_def by (auto dest: set_takeWhileD)
  have cp: "check_parallel input =
      (case strtok (Some input) ''&'' [] of (before, saved1) \<Rightarrow>
         if fst (strtok before [CHR 0x0A] saved1) = None then - 1 else 1)"
    using True by (simp add: check_parallel_def count_loop_strchr Let_def split: prod.splits)
  have tw: "\<And>xs. CHR ''&'' \<notin> set xs \<Longrightarrow> takeWhile (\<lambda>c. c \<noteq> CHR ''&'') xs = xs"
    by (auto simp: takeWhile_eq_all_conv)
  have dw: "\<And>xs. CHR ''&'' \<notin> set xs \<Longrightarrow> dropWhile (\<lambda>c. c \<noteq> CHR ''&'') xs = []"
    by (auto simp: dropWhile_eq_Nil_conv)
  have main: "check_parallel input = - 1 \<longleftrightarrow> list_all (\<lambda>c. c = CHR 0x0A) (if a = [] then b else a)"
  proof (cases "a = []")
    case True
    show ?thesis
    proof (cases b)
      case Nil
      with True inp show ?thesis
        unfolding cp by (simp add: strtok_def)
    next
      case (Cons y ys)
      with nb have y: "y \<noteq> CHR ''&''" by auto
      from nb Cons have nys: "CHR ''&'' \<notin> set ys" by simp
      have t1: "takeWhile (\<lambda>c. c \<noteq> CHR ''&'') ys = ys" using nys by (rule tw)
      have d1: "dropWhile (\<lambda>c. c \<noteq> CHR ''&'') ys = []" using nys by (rule dw)
      have "strtok (Some input) ''&'' [] = (Some b, [])"
        using True inp Cons y by (simp add: strtok_def t1 d1)
      then show ?thesis
        unfolding cp using True by (simp add: strtok_null_iff)
    qed
  next
    case False
    then obtain x xs where ax: "a = x # xs" by (cases a) auto
    with na have x: "x \<noteq> CHR ''&''" by auto
    from na ax have nxs: "CHR ''&'' \<notin> set xs" by simp
    have "takeWhile (\<lambda>c. c \<noteq> CHR ''&'') (xs @ CHR ''&'' # b) = xs"
      using nxs by (subst takeWhile_append2) auto
    moreover have "dropWhile (\<lambda>c. c \<noteq> CHR ''&'') (xs @ CHR ''&'' # b) = CHR ''&'' # b"
      using nxs by (subst dropWhile_append2) auto
    ultimately have "strtok (Some input) ''&'' [] = (Some a, b)"
      using inp ax x by (simp add: strtok_def)
    then show ?thesis
      unfolding cp using False by (simp add: strtok_null_iff)
  qed
  show ?thesis using True main by (simp add: a_def b_def Let_def)
qed

section \<open>Blank lines\<close>

text \<open>
  C8. A line that consists of whitespace characters only is processed by returning at
  once: nothing is executed, no error line is written, and the interpreter state (the
  store, the event trace, the fork counter) is the one before.
\<close>

theorem blank_line_is_skipped:
  "list_all isspace input \<Longrightarrow> process os input st = (Returned, st)"
  by (simp add: process_def check_empty_input_iff)

theorem blank_line_is_skipped_witness:
  "list_all isspace [CHR '' '', CHR 0x09, CHR 0x0A] \<and>
   process (os_sample (\<lambda>n. 100) True) [CHR '' '', CHR 0x09, CHR 0x0A] shell0
     = (Returned, shell0)"
proof -
  have h: "list_all isspace [CHR '' '', CHR 0x09, CHR 0x0A]"
    by (simp add: isspace_def)
  from h blank_line_is_skipped [OF h, of "os_sample (\<lambda>n. 100) True" shell0]
  show ?thesis by simp
qed

section \<open>The separator check and lines with several separators\<close>

lemma wait_for_cmds_last:
  "0 \<le> n \<Longrightarrow> \<exists>slot. last (trace (wait_for_cmds pid n st)) = Waited slot"
proof -
  assume "0 \<le> n"
  then have "nat (n + 1) = Suc (nat n)" by simp
  then show ?thesis by (simp add: wait_for_cmds_def)
qed

lemma write_error_last: "last (trace (write_error st)) = Error_line"
  by (simp add: write_error_def)

lemma run_line_parallel_not_rejected:
  assumes "0 < n"
  shows "run_line os arrTok n r st \<noteq> (Returned, write_error st')"
proof
  assume eq: "run_line os arrTok n r st = (Returned, write_error st')"
  obtain oc pid1 st1 where pl:
    "parallel_loop os arrTok n 0 (replicate (nat (n + 1)) Unset) st = (oc, pid1, st1)"
    by (cases "parallel_loop os arrTok n 0 (replicate (nat (n + 1)) Unset) st") auto
  from eq pl assms have "write_error st' = wait_for_cmds pid1 n st1"
    by (cases oc) (auto simp: run_line_def Let_def)
  then have "last (trace (write_error st')) = last (trace (wait_for_cmds pid1 n st1))"
    by simp
  moreover from assms obtain slot where "last (trace (wait_for_cmds pid1 n st1)) = Waited slot"
    using wait_for_cmds_last [of n pid1 st1] by auto
  ultimately show False by (simp add: write_error_last)
qed

text \<open>
  C10. \<open>check_parallel\<close> returns \<open>-1\<close> only on a line with exactly one separator. On a
  line with two or more separators it returns their number, whatever stands around them,
  and \<open>process\<close> goes on to split the line and to run its sub-commands: such a line is
  never rejected as a whole (a rejected line ends with its single error line, a line that
  reaches the sub-command loop and returns ends with its waits).
\<close>

theorem sentinel_only_for_one_separator:
  "(check_parallel input = - 1 \<longrightarrow> count_list input CHR ''&'' = 1) \<and>
   (2 \<le> count_list input CHR ''&'' \<longrightarrow>
      check_parallel input = int (count_list input CHR ''&'') \<and>
      process os input st =
        run_line os (parse_cmds input) (int (count_list input CHR ''&'')) (- 1) st \<and>
      process os input st \<noteq> (Returned, write_error st))"
proof (intro conjI impI)
  assume "check_parallel input = - 1"
  then show "count_list input CHR ''&'' = 1"
    using parallel_many [of input] by (cases "count_list input CHR ''&'' = 1") auto
next
  assume two: "2 \<le> count_list input CHR ''&''"
  then show cp: "check_parallel input = int (count_list input CHR ''&'')"
    by (intro parallel_many) simp
  from two have "CHR ''&'' \<in> set input" by (intro count_list_pos_mem) simp
  then have "check_empty_input input = 0"
    using amp_not_space by (rule not_space_not_empty)
  with cp two show pr: "process os input st =
        run_line os (parse_cmds input) (int (count_list input CHR ''&'')) (- 1) st"
    by (simp add: process_def Let_def)
  from two have "0 < int (count_list input CHR ''&'')" by simp
  then show "process os input st \<noteq> (Returned, write_error st)"
    unfolding pr by (rule run_line_parallel_not_rejected)
qed

theorem sentinel_only_for_one_separator_witness:
  "check_parallel ''&\<newline>'' = - 1 \<and> count_list ''&\<newline>'' CHR ''&'' = 1 \<and>
   2 \<le> count_list ''& && ls\<newline>'' CHR ''&'' \<and>
   check_parallel ''& && ls\<newline>'' = 3 \<and>
   process (os_sample (\<lambda>n. 100) True) ''& && ls\<newline>'' shell0 =
     run_line (os_sample (\<lambda>n. 100) True) (parse_cmds ''& && ls\<newline>'') 3 (- 1) shell0 \<and>
   process (os_sample (\<lambda>n. 100) True) ''& && ls\<newline>'' shell0
     \<noteq> (Returned, write_error shell0)"
proof -
  have a: "check_parallel ''&\<newline>'' = - 1"
    by (simp add: check_parallel_def strtok_def)
  have b: "2 \<le> count_list ''& && ls\<newline>'' CHR ''&''"
    by simp
  have c: "int (count_list ''& && ls\<newline>'' CHR ''&'') = 3"
    by simp
  from sentinel_only_for_one_separator [of "''&\<newline>''"] a
  have "count_list ''&\<newline>'' CHR ''&'' = 1" by blast
  moreover from sentinel_only_for_one_separator
    [of "''& && ls\<newline>''" "os_sample (\<lambda>n. 100) True" shell0] b
  have "check_parallel ''& && ls\<newline>'' = int (count_list ''& && ls\<newline>'' CHR ''&'') \<and>
     process (os_sample (\<lambda>n. 100) True) ''& && ls\<newline>'' shell0 =
       run_line (os_sample (\<lambda>n. 100) True) (parse_cmds ''& && ls\<newline>'')
         (int (count_list ''& && ls\<newline>'' CHR ''&'')) (- 1) shell0 \<and>
     process (os_sample (\<lambda>n. 100) True) ''& && ls\<newline>'' shell0
       \<noteq> (Returned, write_error shell0)"
    by blast
  ultimately show ?thesis using a b unfolding c by blast
qed

section \<open>Evaluating whole lines\<close>

lemmas line_defs = process_def run_line_def parallel_loop.simps loop_body_def run_tokens_def
  check_parallel_def check_redirect_def parse_input_def parse_cmds_def strtok_def arr_get_def
  check_command_def check_path_def built_in_commands_def wait_for_cmds_def write_error_def
  dash_exit_def dash_exit2_def dash_cd_def dash_path_def which_built_in_def
  count_tokens_def isspace_def Let_def

section \<open>The \<open>path\<close> built-in and the search path store\<close>

lemma dash_path_Cons: "dash_path (cmd # args) = args"
proof (cases args)
  case Nil
  then show ?thesis by (simp add: dash_path_def)
next
  case (Cons a as)
  have n: "nat (count_tokens (cmd # args) - 1) = length args"
    by (simp add: count_tokens_def)
  have "map (\<lambda>i. (cmd # args) ! (i + 1)) [0 ..< length args] = map ((!) args) [0 ..< length args]"
    by simp
  also have "\<dots> = args" by (rule map_nth)
  finally have "map (\<lambda>i. (cmd # args) ! (i + 1)) [0 ..< length args] = args" .
  with Cons show ?thesis unfolding dash_path_def n by simp
qed

lemma child_empty_store:
  "exec_command_child os arrTok [] redirection p = Child_exit 1 (write_error_child p)"
  by (simp add: exec_command_child_def count_tokens_def)

lemma run_tokens_path:
  "run_tokens os (''path'' # args) redirection parallel_cmd i pid st
     = (Returned, pid, st\<lparr>path := args\<rparr>)"
  by (simp add: run_tokens_def arr_get_def check_command_def check_path_def
        built_in_commands_def dash_path_Cons)

lemma run_line_path:
  "run_line os (''path'' # args) 0 redirection st = (Returned, st\<lparr>path := args\<rparr>)"
  by (simp add: run_line_def check_command_def check_path_def
        built_in_commands_def dash_path_Cons)

lemma path_write_error [simp]: "path (write_error st) = path st"
  by (simp add: write_error_def)

lemma path_wait_for_cmds [simp]: "path (wait_for_cmds pid n st) = path st"
  by (simp add: wait_for_cmds_def)

lemma path_exec_command: "exec_command os arr pth r st = (p, st') \<Longrightarrow> path st' = path st"
  by (auto simp: exec_command_def Let_def write_error_def split: if_splits)

lemma path_which_built_in:
  "which_built_in os arr n pid st = (oc, st') \<Longrightarrow> path st' = path st"
  by (auto simp: which_built_in_def dash_exit_def dash_exit2_def dash_cd_def Let_def
        split: list.splits if_splits sum.splits option.splits)

lemma run_tokens_frame:
  assumes "run_tokens os arr r n i pid st = (oc, pid', st')"
    and "\<forall>args. arr \<noteq> ''path'' # args"
  shows "path st' = path st"
proof (cases arr)
  case Nil
  with assms show ?thesis by (simp add: run_tokens_def arr_get_def)
next
  case (Cons cmd rest)
  with assms(2) have np: "cmd \<noteq> ''path''" by simp
  show ?thesis
  proof (cases "cmd \<in> set built_in_commands")
    case True
    with assms(1) Cons np
    have "which_built_in os arr n pid st = (oc, st')"
      by (auto simp: run_tokens_def arr_get_def check_command_def check_path_def
            built_in_commands_def split: prod.splits)
    then show ?thesis by (rule path_which_built_in)
  next
    case False
    with assms(1) Cons obtain p where "exec_command os arr (path st) r st = (p, st')"
      by (auto simp: run_tokens_def arr_get_def check_command_def split: prod.splits)
    then show ?thesis by (rule path_exec_command)
  qed
qed

lemma loop_body_frame:
  assumes "loop_body os entry n i pid st = (oc, pid', st')"
    and "\<forall>sub args. entry = Some sub \<longrightarrow> parse_input sub \<noteq> ''path'' # args"
  shows "path st' = path st"
proof (cases entry)
  case None
  with assms(1) show ?thesis by (simp add: loop_body_def)
next
  case (Some sub)
  show ?thesis
  proof (cases "check_redirect sub > 1 \<or> check_redirect sub < 0")
    case True
    with assms(1) Some show ?thesis by (auto simp: loop_body_def Let_def)
  next
    case False
    with assms(1) Some
    have "run_tokens os (parse_input sub) (check_redirect sub) n i pid st = (oc, pid', st')"
      by (simp add: loop_body_def Let_def)
    moreover from assms(2) Some have "\<forall>args. parse_input sub \<noteq> ''path'' # args" by simp
    ultimately show ?thesis by (rule run_tokens_frame)
  qed
qed

lemma parallel_loop_frame:
  assumes "parallel_loop os arrTok n i pid st = (oc, pid', st')"
    and "\<forall>sub \<in> set arrTok. \<forall>args. parse_input sub \<noteq> ''path'' # args"
  shows "path st' = path st"
  using assms
proof (induction os arrTok n i pid st rule: parallel_loop.induct)
  case (1 os arrTok n i pid st)
  show ?case
  proof (cases "i < n + 1")
    case False
    with "1.prems"(1) show ?thesis by (simp add: parallel_loop.simps)
  next
    case True
    show ?thesis
    proof (cases "arr_get arrTok (nat i)")
      case (Inl f)
      with True "1.prems"(1) show ?thesis by (simp add: parallel_loop.simps)
    next
      case (Inr entry)
      obtain oc1 pid1 st1 where lb: "loop_body os entry n i pid st = (oc1, pid1, st1)"
        by (cases "loop_body os entry n i pid st") auto
      from Inr "1.prems"(2)
      have "\<forall>sub args. entry = Some sub \<longrightarrow> parse_input sub \<noteq> ''path'' # args"
        by (auto simp: arr_get_def split: if_splits)
      with lb have p1: "path st1 = path st" by (rule loop_body_frame)
      show ?thesis
      proof (cases oc1)
        case Returned
        with True Inr lb "1.prems"(1)
        have "parallel_loop os arrTok n (i + 1) pid1 st1 = (oc, pid', st')"
          by (simp add: parallel_loop.simps [of os arrTok n i])
        with "1.IH" [OF True Inr lb [symmetric] Returned refl] "1.prems"(2) p1
        show ?thesis by simp
      next
        case (Exited m)
        with True Inr lb "1.prems"(1) p1 show ?thesis
          by (simp add: parallel_loop.simps [of os arrTok n i])
      next
        case (Crashed f)
        with True Inr lb "1.prems"(1) p1 show ?thesis
          by (simp add: parallel_loop.simps [of os arrTok n i])
      qed
    qed
  qed
qed


lemma run_line_frame:
  assumes "run_line os arrTok n r st = (oc, st')"
    and "n = 0 \<Longrightarrow> \<forall>args. arrTok \<noteq> ''path'' # args"
    and "n \<noteq> 0 \<Longrightarrow> \<forall>sub \<in> set arrTok. \<forall>args. parse_input sub \<noteq> ''path'' # args"
  shows "path st' = path st"
proof (cases "n = 0")
  case True
  show ?thesis
  proof (cases arrTok)
    case Nil
    with assms(1) True show ?thesis by (simp add: run_line_def check_command_def)
  next
    case (Cons cmd rest)
    with assms(2) [OF True] have np: "cmd \<noteq> ''path''" by simp
    show ?thesis
    proof (cases "cmd \<in> set built_in_commands")
      case bi: True
      with assms(1) Cons np True
      have "which_built_in os arrTok n (replicate (nat (n + 1)) Unset) st = (oc, st')"
        by (auto simp: run_line_def check_command_def check_path_def built_in_commands_def)
      then show ?thesis by (rule path_which_built_in)
    next
      case nb: False
      with assms(1) Cons True show ?thesis
        by (auto simp: run_line_def check_command_def split: prod.splits
              dest: path_exec_command)
    qed
  qed
next
  case False
  let ?pid = "replicate (nat (n + 1)) Unset"
  obtain oc1 pid1 st1 where pl: "parallel_loop os arrTok n 0 ?pid st = (oc1, pid1, st1)"
    by (cases "parallel_loop os arrTok n 0 ?pid st") auto
  then have "path st1 = path st" using assms(3) [OF False] by (rule parallel_loop_frame)
  moreover from assms(1) False pl have "path st' = path st1"
    by (cases oc1) (auto simp: run_line_def Let_def)
  ultimately show ?thesis by simp
qed

lemma process_frame:
  assumes "\<forall>sub \<in> set (if 0 < check_parallel input then parse_cmds input else [input]).
             \<forall>args. parse_input sub \<noteq> ''path'' # args"
  shows "path (snd (process os input st)) = path st"
proof -
  obtain oc st' where pr: "process os input st = (oc, st')"
    by (cases "process os input st") auto
  have "path st' = path st"
  proof (cases "check_empty_input input = 1 \<or> check_parallel input = - 1")
    case True
    with pr show ?thesis by (auto simp: process_def Let_def split: if_splits)
  next
    case ne: False
    show ?thesis
    proof (cases "0 < check_parallel input")
      case True
      with pr ne have "run_line os (parse_cmds input) (check_parallel input) (- 1) st = (oc, st')"
        by (simp add: process_def Let_def)
      moreover from assms True
      have "\<forall>sub \<in> set (parse_cmds input). \<forall>args. parse_input sub \<noteq> ''path'' # args" by simp
      ultimately show ?thesis using True by (intro run_line_frame) auto
    next
      case False
      have cz: "check_parallel input = 0"
        using False ne parallel_many [of input]
        by (cases "count_list input CHR ''&'' = 1") (auto simp: check_parallel_def count_loop_strchr Let_def split: prod.splits if_splits)
      show ?thesis
      proof (cases "check_redirect input > 1 \<or> check_redirect input < 0")
        case True
        with pr ne cz show ?thesis by (auto simp: process_def Let_def)
      next
        case ok: False
        with pr ne cz have "run_line os (parse_input input) 0 (check_redirect input) st = (oc, st')"
          by (simp add: process_def Let_def)
        moreover from assms False have "\<forall>args. parse_input input \<noteq> ''path'' # args" by simp
        ultimately show ?thesis by (intro run_line_frame) auto
      qed
    qed
  qed
  with pr show ?thesis by simp
qed

lemma loop_body_path:
  "check_redirect sub = 0 \<Longrightarrow> parse_input sub = ''path'' # args
     \<Longrightarrow> loop_body os (Some sub) n i pid st = (Returned, pid, st\<lparr>path := args\<rparr>)"
  by (simp add: loop_body_def run_tokens_path)

lemma parallel_loop_frame_from:
  assumes "parallel_loop os arrTok n i pid st = (oc, pid', st')"
    and "0 \<le> i"
    and "\<forall>j. nat i \<le> j \<and> j < length arrTok \<longrightarrow> (\<forall>args. parse_input (arrTok ! j) \<noteq> ''path'' # args)"
  shows "path st' = path st"
  using assms
proof (induction os arrTok n i pid st rule: parallel_loop.induct)
  case (1 os arrTok n i pid st)
  show ?case
  proof (cases "i < n + 1")
    case False
    with "1.prems"(1) show ?thesis by (simp add: parallel_loop.simps)
  next
    case True
    show ?thesis
    proof (cases "arr_get arrTok (nat i)")
      case (Inl f)
      with True "1.prems"(1) show ?thesis by (simp add: parallel_loop.simps)
    next
      case (Inr entry)
      obtain oc1 pid1 st1 where lb: "loop_body os entry n i pid st = (oc1, pid1, st1)"
        by (cases "loop_body os entry n i pid st") auto
      from Inr "1.prems"(3)
      have "\<forall>sub args. entry = Some sub \<longrightarrow> parse_input sub \<noteq> ''path'' # args"
        by (auto simp: arr_get_def split: if_splits)
      with lb have p1: "path st1 = path st" by (rule loop_body_frame)
      show ?thesis
      proof (cases oc1)
        case Returned
        with True Inr lb "1.prems"(1)
        have nx: "parallel_loop os arrTok n (i + 1) pid1 st1 = (oc, pid', st')"
          by (simp add: parallel_loop.simps [of os arrTok n i])
        from "1.prems"(2,3)
        have later: "\<forall>j. nat (i + 1) \<le> j \<and> j < length arrTok
                      \<longrightarrow> (\<forall>args. parse_input (arrTok ! j) \<noteq> ''path'' # args)"
          by auto
        from "1.prems"(2) have "0 \<le> i + 1" by simp
        with "1.IH" [OF True Inr lb [symmetric] Returned refl nx] later p1
        show ?thesis by simp
      next
        case (Exited m)
        with True Inr lb "1.prems"(1) p1 show ?thesis
          by (simp add: parallel_loop.simps [of os arrTok n i])
      next
        case (Crashed f)
        with True Inr lb "1.prems"(1) p1 show ?thesis
          by (simp add: parallel_loop.simps [of os arrTok n i])
      qed
    qed
  qed
qed

lemma parallel_loop_path_at:
  assumes "parallel_loop os arrTok n i pid st = (Returned, pid', st')"
    and "0 \<le> i" and "nat i \<le> k" and "int k \<le> n" and "k < length arrTok"
    and "check_redirect (arrTok ! k) = 0"
    and "parse_input (arrTok ! k) = ''path'' # args"
    and "\<forall>j. k < j \<and> j < length arrTok \<longrightarrow> (\<forall>a. parse_input (arrTok ! j) \<noteq> ''path'' # a)"
  shows "path st' = args"
  using assms
proof (induction os arrTok n i pid st rule: parallel_loop.induct)
  case (1 os arrTok n i pid st)
  from "1.prems"(2,3,4) have lt: "i < n + 1" by linarith
  from "1.prems"(3,5) have il: "nat i < length arrTok" by simp
  then have ag: "arr_get arrTok (nat i) = Inr (Some (arrTok ! nat i))"
    by (simp add: arr_get_def)
  obtain oc1 pid1 st1 where
    lb: "loop_body os (Some (arrTok ! nat i)) n i pid st = (oc1, pid1, st1)"
    by (cases "loop_body os (Some (arrTok ! nat i)) n i pid st") auto
  from lt ag lb "1.prems"(1) have oc1: "oc1 = Returned"
    by (cases oc1) (simp_all add: parallel_loop.simps [of os arrTok n i])
  with lt ag lb "1.prems"(1)
  have nx: "parallel_loop os arrTok n (i + 1) pid1 st1 = (Returned, pid', st')"
    by (simp add: parallel_loop.simps [of os arrTok n i])
  from "1.prems"(2) have nn: "0 \<le> i + 1" by simp
  show ?case
  proof (cases "nat i = k")
    case True
    with lb "1.prems"(6,7) have "st1 = st\<lparr>path := args\<rparr>"
      by (simp add: loop_body_path)
    moreover
    from True "1.prems"(2,8)
    have "\<forall>j. nat (i + 1) \<le> j \<and> j < length arrTok
            \<longrightarrow> (\<forall>a. parse_input (arrTok ! j) \<noteq> ''path'' # a)"
      by auto
    with nx nn have "path st' = path st1" by (rule parallel_loop_frame_from)
    ultimately show ?thesis by simp
  next
    case False
    with "1.prems"(2,3) have "nat (i + 1) \<le> k" by linarith
    with "1.IH" [OF lt ag lb [symmetric] oc1 refl nx nn] "1.prems"(4,5,6,7,8)
    show ?thesis by blast
  qed
qed

lemma blank_has_no_separator: "check_empty_input input = 1 \<Longrightarrow> check_parallel input = 0"
proof -
  assume "check_empty_input input = 1"
  then have "list_all isspace input" by (simp add: check_empty_input_iff)
  then have "CHR ''&'' \<notin> set input"
    using amp_not_space by (auto simp: list_all_iff)
  then have "count_list input CHR ''&'' = 0" by (simp add: count_list_0_iff)
  then show ?thesis using parallel_many [of input] by simp
qed

lemma process_group_path:
  assumes "process os input st = (Returned, st')"
    and "0 < check_parallel input" and "int k \<le> check_parallel input"
    and "k < length (parse_cmds input)"
    and "check_redirect (parse_cmds input ! k) = 0"
    and "parse_input (parse_cmds input ! k) = ''path'' # args"
    and "\<forall>j. k < j \<and> j < length (parse_cmds input)
           \<longrightarrow> (\<forall>a. parse_input (parse_cmds input ! j) \<noteq> ''path'' # a)"
  shows "path st' = args"
proof -
  let ?n = "check_parallel input"
  let ?pid = "replicate (nat (?n + 1)) Unset"
  from assms(2) have ne: "check_empty_input input \<noteq> 1"
    using blank_has_no_separator [of input] by auto
  with assms(1,2) have rl: "run_line os (parse_cmds input) ?n (- 1) st = (Returned, st')"
    by (simp add: process_def Let_def)
  obtain oc1 pid1 st1 where
    pl: "parallel_loop os (parse_cmds input) ?n 0 ?pid st = (oc1, pid1, st1)"
    by (cases "parallel_loop os (parse_cmds input) ?n 0 ?pid st") auto
  from rl pl assms(2) have oc1: "oc1 = Returned" and st': "st' = wait_for_cmds pid1 ?n st1"
    by (cases oc1; simp add: run_line_def Let_def)+
  from pl oc1 have "parallel_loop os (parse_cmds input) ?n 0 ?pid st = (Returned, pid1, st1)"
    by simp
  then have "path st1 = args"
    using assms(3,4,5,6,7) by (intro parallel_loop_path_at [where k = k and i = 0]) auto
  with st' show ?thesis by simp
qed

text \<open>
  C6. \<open>dash_path\<close> returns the tokens behind the command name, in their order. A \<open>path\<close>
  line without a redirection operator stores exactly its additional arguments (the empty
  list when there are none), and so does a \<open>path\<close> sub-command without redirection in a
  parallel line that runs to its end, when no later sub-command is \<open>path\<close>. A child that is
  launched while the store is empty writes the error line and exits with status 1
  whatever the command is, and a line none of whose sub-commands is \<open>path\<close> leaves the store
  as it is. But the built-in is handed the tokens of \<open>parse_input\<close> as they are, redirection
  target included: on the line \<open>path > /bin\<close>, which gives \<open>path\<close> no argument, the store
  becomes the one-entry list \<open>/bin\<close> instead of the empty list.
\<close>

theorem path_builtin_store_update:
  "dash_path (cmd # args) = args \<and>
   (check_empty_input input = 0 \<and> check_parallel input = 0 \<and> check_redirect input = 0 \<and>
    parse_input input = ''path'' # args
      \<longrightarrow> process os input st = (Returned, st\<lparr>path := args\<rparr>)) \<and>
   (process os gline st = (Returned, st') \<and>
    0 < check_parallel gline \<and> int k \<le> check_parallel gline \<and>
    k < length (parse_cmds gline) \<and>
    check_redirect (parse_cmds gline ! k) = 0 \<and>
    parse_input (parse_cmds gline ! k) = ''path'' # args \<and>
    (\<forall>j. k < j \<and> j < length (parse_cmds gline)
           \<longrightarrow> (\<forall>a. parse_input (parse_cmds gline ! j) \<noteq> ''path'' # a))
      \<longrightarrow> path st' = args) \<and>
   exec_command_child os arrTok [] redirection p = Child_exit 1 (write_error_child p) \<and>
   ((\<forall>sub \<in> set (if 0 < check_parallel line then parse_cmds line else [line]).
       \<forall>args'. parse_input sub \<noteq> ''path'' # args')
      \<longrightarrow> path (snd (process os line st)) = path st) \<and>
   check_redirect ''path > /bin\<newline>'' = 1 \<and>
   parse_input ''path > /bin\<newline>'' = [''path'', ''/bin''] \<and>
   process os ''path > /bin\<newline>'' st = (Returned, st\<lparr>path := [''/bin'']\<rparr>)"
proof (intro conjI impI)
  show "dash_path (cmd # args) = args" by (rule dash_path_Cons)
  show "exec_command_child os arrTok [] redirection p = Child_exit 1 (write_error_child p)"
    by (rule child_empty_store)
  show "check_redirect ''path > /bin\<newline>'' = 1"
    by (simp add: check_redirect_def strtok_def)
  show "parse_input ''path > /bin\<newline>'' = [''path'', ''/bin'']"
    by (simp add: parse_input_def strtok_def)
  show "process os ''path > /bin\<newline>'' st = (Returned, st\<lparr>path := [''/bin'']\<rparr>)"
    by (simp add: line_defs)
next
  assume "check_empty_input input = 0 \<and> check_parallel input = 0 \<and> check_redirect input = 0 \<and>
    parse_input input = ''path'' # args"
  then show "process os input st = (Returned, st\<lparr>path := args\<rparr>)"
    by (auto simp: process_def Let_def run_line_path)
next
  assume h: "process os gline st = (Returned, st') \<and>
    0 < check_parallel gline \<and> int k \<le> check_parallel gline \<and>
    k < length (parse_cmds gline) \<and>
    check_redirect (parse_cmds gline ! k) = 0 \<and>
    parse_input (parse_cmds gline ! k) = ''path'' # args \<and>
    (\<forall>j. k < j \<and> j < length (parse_cmds gline)
           \<longrightarrow> (\<forall>a. parse_input (parse_cmds gline ! j) \<noteq> ''path'' # a))"
  show "path st' = args"
    by (rule process_group_path [of os gline st st' k args]) (use h in blast)+
next
  assume "\<forall>sub \<in> set (if 0 < check_parallel line then parse_cmds line else [line]).
       \<forall>args'. parse_input sub \<noteq> ''path'' # args'"
  then show "path (snd (process os line st)) = path st" by (rule process_frame)
qed

theorem path_builtin_store_update_witness:
  "check_empty_input ''path /a /b\<newline>'' = 0 \<and> check_parallel ''path /a /b\<newline>'' = 0 \<and>
   check_redirect ''path /a /b\<newline>'' = 0 \<and>
   parse_input ''path /a /b\<newline>'' = ''path'' # [''/a'', ''/b''] \<and>
   process (os_sample (\<lambda>n. 100 + int n) True) ''path /a /b\<newline>'' shell0
     = (Returned, shell0\<lparr>path := [''/a'', ''/b'']\<rparr>) \<and>
   parse_cmds ''path /x & ls\<newline>'' = [''path /x '', '' ls\<newline>''] \<and>
   check_parallel ''path /x & ls\<newline>'' = 1 \<and>
   check_redirect ''path /x '' = 0 \<and>
   parse_input ''path /x '' = ''path'' # [''/x''] \<and>
   parse_input '' ls\<newline>'' = [''ls''] \<and>
   process (os_sample (\<lambda>n. 100 + int n) True) ''path /x & ls\<newline>'' shell0
     = (Returned,
        \<lparr>path = [''/x''], exit_not_called = 1, forks = 1,
         trace = [Spawned 100 [''ls''] [''/x''] 0, Waited Unset, Waited (Pid 100)]\<rparr>) \<and>
   parse_input ''ls\<newline>'' = [''ls''] \<and> check_parallel ''ls\<newline>'' = 0 \<and>
   path (snd (process (os_sample (\<lambda>n. 100 + int n) True) ''ls\<newline>'' (shell0\<lparr>path := []\<rparr>))) = []"
proof -
  let ?os = "os_sample (\<lambda>n. 100 + int n) True"
  let ?g = "''path /x & ls\<newline>''"
  let ?st' = "\<lparr>path = [''/x''], exit_not_called = 1, forks = 1,
         trace = [Spawned 100 [''ls''] [''/x''] 0, Waited Unset, Waited (Pid 100)]\<rparr>"
  have a: "check_empty_input ''path /a /b\<newline>'' = 0"
    by (simp add: isspace_def)
  have b: "check_parallel ''path /a /b\<newline>'' = 0"
    by (simp add: check_parallel_def)
  have c: "check_redirect ''path /a /b\<newline>'' = 0"
    by (simp add: check_redirect_def)
  have d: "parse_input ''path /a /b\<newline>'' = ''path'' # [''/a'', ''/b'']"
    by (simp add: parse_input_def strtok_def)
  have e: "parse_input ''ls\<newline>'' = [''ls'']"
    by (simp add: parse_input_def strtok_def)
  have f: "check_parallel ''ls\<newline>'' = 0"
    by (simp add: check_parallel_def)
  have pc: "parse_cmds ?g = [''path /x '', '' ls\<newline>'']"
    by (simp add: parse_cmds_def strtok_def)
  have cp: "check_parallel ?g = 1"
    by (simp add: check_parallel_def strtok_def)
  have cr: "check_redirect ''path /x '' = 0"
    by (simp add: check_redirect_def)
  have pi0: "parse_input ''path /x '' = ''path'' # [''/x'']"
    by (simp add: parse_input_def strtok_def)
  have pi1: "parse_input '' ls\<newline>'' = [''ls'']"
    by (simp add: parse_input_def strtok_def)
  have pr: "process ?os ?g shell0 = (Returned, ?st')"
    by (simp add: line_defs exec_command_def os_sample_def shell0_def upt_rec)
  have later: "\<forall>j. 0 < j \<and> j < length (parse_cmds ?g)
                 \<longrightarrow> (\<forall>a. parse_input (parse_cmds ?g ! j) \<noteq> ''path'' # a)"
  proof (intro allI impI)
    fix j a
    assume "0 < j \<and> j < length (parse_cmds ?g)"
    then have "j = 1" by (simp add: pc)
    then show "parse_input (parse_cmds ?g ! j) \<noteq> ''path'' # a" by (simp add: pc pi1)
  qed
  from f e have g: "\<forall>sub \<in> set (if 0 < check_parallel ''ls\<newline>'' then parse_cmds ''ls\<newline>''
                      else [''ls\<newline>'']). \<forall>args'. parse_input sub \<noteq> ''path'' # args'"
    by simp
  note t1 = path_builtin_store_update
    [where os = ?os and input = "''path /a /b\<newline>''" and args = "[''/a'', ''/b'']"
       and st = shell0]
  note t2 = path_builtin_store_update
    [where os = ?os and gline = ?g and args = "[''/x'']" and st = shell0 and st' = ?st'
       and k = 0]
  note t3 = path_builtin_store_update
    [where os = ?os and line = "''ls\<newline>''" and st = "shell0\<lparr>path := []\<rparr>"]
  from t1 a b c d
  have r1: "process ?os ''path /a /b\<newline>'' shell0 = (Returned, shell0\<lparr>path := [''/a'', ''/b'']\<rparr>)"
    by blast
  have h2: "process ?os ?g shell0 = (Returned, ?st') \<and>
    0 < check_parallel ?g \<and> int 0 \<le> check_parallel ?g \<and>
    0 < length (parse_cmds ?g) \<and>
    check_redirect (parse_cmds ?g ! 0) = 0 \<and>
    parse_input (parse_cmds ?g ! 0) = ''path'' # [''/x''] \<and>
    (\<forall>j. 0 < j \<and> j < length (parse_cmds ?g)
           \<longrightarrow> (\<forall>a. parse_input (parse_cmds ?g ! j) \<noteq> ''path'' # a))"
    using pr later by (simp add: cp pc cr pi0)
  from t2 h2 have r2: "path ?st' = [''/x'']" by blast
  from t3 g
  have r3: "path (snd (process ?os ''ls\<newline>'' (shell0\<lparr>path := []\<rparr>))) = path (shell0\<lparr>path := []\<rparr>)"
    by blast
  from a b c d e f pc cp cr pi0 pi1 pr r1 r2 r3 show ?thesis by simp
qed

section \<open>Executable resolution in the child\<close>

lemma path_loop_first:
  "\<forall>d' \<in> set ds1. \<not> access_x os (d' @ ''/'' @ cmd) \<Longrightarrow> access_x os (d @ ''/'' @ cmd)
     \<Longrightarrow> path_loop os (ds1 @ d # ds2) cmd redirection pa = Some (d @ ''/'' @ cmd)"
  by (induction ds1 arbitrary: pa) (auto simp: Let_def)

lemma path_loop_none:
  "pth \<noteq> [] \<Longrightarrow> \<forall>d \<in> set pth. \<not> access_x os (d @ ''/'' @ cmd) \<Longrightarrow> redirection \<noteq> 1
     \<Longrightarrow> path_loop os pth cmd redirection pa = None"
proof (induction pth arbitrary: pa)
  case Nil
  then show ?case by simp
next
  case (Cons d ds)
  show ?case
  proof (cases "ds = []")
    case True
    with Cons.prems show ?thesis by (simp add: Let_def)
  next
    case False
    with Cons.prems Cons.IH [of "d @ ''/'' @ cmd"] show ?thesis by (simp add: Let_def)
  qed
qed

lemma path_loop_last:
  "pth \<noteq> [] \<Longrightarrow> \<forall>d \<in> set pth. \<not> access_x os (d @ ''/'' @ cmd)
     \<Longrightarrow> path_loop os pth cmd 1 pa = Some (last pth @ ''/'' @ cmd)"
proof (induction pth arbitrary: pa)
  case Nil
  then show ?case by simp
next
  case (Cons d ds)
  show ?case
  proof (cases "ds = []")
    case True
    with Cons.prems show ?thesis by (simp add: Let_def)
  next
    case False
    with Cons.prems Cons.IH [of "d @ ''/'' @ cmd"] show ?thesis by (simp add: Let_def)
  qed
qed


lemma child_not_found:
  assumes "pth \<noteq> []" "\<forall>d \<in> set pth. \<not> access_x os (d @ ''/'' @ cmd)" "redirection \<noteq> 1"
  shows "exec_command_child os (cmd # rest) pth redirection p = Child_exit 1 (write_error_child p)"
  using assms path_loop_none [OF assms, of "[]"]
  by (simp add: exec_command_child_def count_tokens_def)

lemma child_found:
  assumes "\<forall>d' \<in> set ds1. \<not> access_x os (d' @ ''/'' @ cmd)" "access_x os (d @ ''/'' @ cmd)"
    and "redirection \<noteq> 1" "execv_ok os (d @ ''/'' @ cmd)"
  shows "exec_command_child os (cmd # rest) (ds1 @ d # ds2) redirection p
           = Child_exec (d @ ''/'' @ cmd) (cmd # rest) p"
  using assms(3,4) path_loop_first [OF assms(1,2), of ds2 redirection "[]"]
  by (simp add: exec_command_child_def count_tokens_def)

lemma one_error_line: "written (write_error_child std_proc) = [(Stderr, error_message)]"
  by (simp add: write_error_child_def write_fd_def std_proc_def)

lemma child_redirect_open_fails:
  assumes "path_loop os pth cmd 1 [] = Some pa" and "pth \<noteq> []"
    and "\<not> open_ok os (last (cmd # rest))"
  shows "exec_command_child os (cmd # rest) pth 1 std_proc
           = Child_exit 1 \<lparr>fds = [Some Stdin, None, None], written = []\<rparr>"
proof -
  have i: "nat (count_tokens (cmd # rest) - 1) = length rest"
    by (simp add: count_tokens_def)
  have l: "(cmd # rest) ! length rest = last (cmd # rest)"
    using last_conv_nth [of "cmd # rest"] by simp
  from assms(2) have n: "count_tokens pth \<noteq> 0" by (simp add: count_tokens_def)
  show ?thesis
    unfolding exec_command_child_def Let_def i l
    using assms n
    by (simp add: std_proc_def close_fd_def open_file_def write_error_child_def write_fd_def)
qed

lemma child_redirect_execv_fails:
  assumes "path_loop os pth cmd 1 [] = Some pa" and "pth \<noteq> []"
    and "open_ok os (last (cmd # rest))" and "\<not> execv_ok os pa"
  shows "exec_command_child os (cmd # rest) pth 1 std_proc
           = Child_exit 1 \<lparr>fds = [Some Stdin, None, None],
                             written = [(File (last (cmd # rest)), error_message)]\<rparr>"
proof -
  have i: "nat (count_tokens (cmd # rest) - 1) = length rest"
    by (simp add: count_tokens_def)
  have l: "(cmd # rest) ! length rest = last (cmd # rest)"
    using last_conv_nth [of "cmd # rest"] by simp
  from assms(2) have n: "count_tokens pth \<noteq> 0" by (simp add: count_tokens_def)
  show ?thesis
    unfolding exec_command_child_def Let_def i l
    using assms n
    by (simp add: std_proc_def close_fd_def open_file_def write_fd_def)
qed

text \<open>
  C5. The search loop probes the directories in store order and stops at the first one
  in which \<open>directory/command\<close> has execute access, and without a redirection that file is
  the image the child is replaced by; with an empty store the child writes the error
  line and exits with status 1 at once; when no directory succeeds and the sub-command
  has no redirection, the child writes the error line once (to its standard error stream,
  after the last candidate only) and exits with status 1. With a redirection the search
  loop leaves the report to the later steps: when the target can be opened, the failed
  \<open>execv\<close> of the last candidate writes the one error line to the target. But when the
  target cannot be opened, the failed resolution ends without any error line:
  \<open>write_error\<close> is called behind \<open>close(2)\<close> and writes to the closed descriptor 2.
\<close>

theorem resolution_in_store_order:
  "((\<forall>d' \<in> set earlier. \<not> access_x os (d' @ ''/'' @ cmd)) \<and> access_x os (d @ ''/'' @ cmd)
      \<longrightarrow> path_loop os (earlier @ d # later) cmd redirection pa = Some (d @ ''/'' @ cmd)) \<and>
   ((\<forall>d' \<in> set earlier. \<not> access_x os (d' @ ''/'' @ cmd)) \<and> access_x os (d @ ''/'' @ cmd) \<and>
    redirection \<noteq> 1 \<and> execv_ok os (d @ ''/'' @ cmd)
      \<longrightarrow> exec_command_child os (cmd # rest) (earlier @ d # later) redirection p
            = Child_exec (d @ ''/'' @ cmd) (cmd # rest) p) \<and>
   exec_command_child os arrTok [] redirection p = Child_exit 1 (write_error_child p) \<and>
   (pth \<noteq> [] \<and> (\<forall>d \<in> set pth. \<not> access_x os (d @ ''/'' @ cmd)) \<and> redirection \<noteq> 1
      \<longrightarrow> exec_command_child os (cmd # rest) pth redirection p
            = Child_exit 1 (write_error_child p)) \<and>
   written (write_error_child std_proc) = [(Stderr, error_message)] \<and>
   (pth \<noteq> [] \<and> (\<forall>d \<in> set pth. \<not> access_x os (d @ ''/'' @ cmd)) \<and>
    open_ok os (last (cmd # rest)) \<and> \<not> execv_ok os (last pth @ ''/'' @ cmd)
      \<longrightarrow> exec_command_child os (cmd # rest) pth 1 std_proc
            = Child_exit 1 \<lparr>fds = [Some Stdin, None, None],
                              written = [(File (last (cmd # rest)), error_message)]\<rparr>) \<and>
   (pth \<noteq> [] \<and> (\<forall>d \<in> set pth. \<not> access_x os (d @ ''/'' @ cmd)) \<and>
    \<not> open_ok os (last (cmd # rest))
      \<longrightarrow> exec_command_child os (cmd # rest) pth 1 std_proc
            = Child_exit 1 \<lparr>fds = [Some Stdin, None, None], written = []\<rparr>)"
proof (intro conjI impI)
  assume "(\<forall>d' \<in> set earlier. \<not> access_x os (d' @ ''/'' @ cmd)) \<and> access_x os (d @ ''/'' @ cmd)"
  then show "path_loop os (earlier @ d # later) cmd redirection pa = Some (d @ ''/'' @ cmd)"
    by (intro path_loop_first) auto
next
  assume "(\<forall>d' \<in> set earlier. \<not> access_x os (d' @ ''/'' @ cmd)) \<and> access_x os (d @ ''/'' @ cmd) \<and>
    redirection \<noteq> 1 \<and> execv_ok os (d @ ''/'' @ cmd)"
  then show "exec_command_child os (cmd # rest) (earlier @ d # later) redirection p
            = Child_exec (d @ ''/'' @ cmd) (cmd # rest) p"
    by (intro child_found) auto
next
  show "exec_command_child os arrTok [] redirection p = Child_exit 1 (write_error_child p)"
    by (rule child_empty_store)
next
  assume "pth \<noteq> [] \<and> (\<forall>d \<in> set pth. \<not> access_x os (d @ ''/'' @ cmd)) \<and> redirection \<noteq> 1"
  then show "exec_command_child os (cmd # rest) pth redirection p
            = Child_exit 1 (write_error_child p)"
    by (intro child_not_found) auto
next
  show "written (write_error_child std_proc) = [(Stderr, error_message)]"
    by (rule one_error_line)
next
  assume h: "pth \<noteq> [] \<and> (\<forall>d \<in> set pth. \<not> access_x os (d @ ''/'' @ cmd)) \<and>
    open_ok os (last (cmd # rest)) \<and> \<not> execv_ok os (last pth @ ''/'' @ cmd)"
  then have "path_loop os pth cmd 1 [] = Some (last pth @ ''/'' @ cmd)"
    by (intro path_loop_last) auto
  with h show "exec_command_child os (cmd # rest) pth 1 std_proc
            = Child_exit 1 \<lparr>fds = [Some Stdin, None, None],
                              written = [(File (last (cmd # rest)), error_message)]\<rparr>"
    by (intro child_redirect_execv_fails) auto
next
  assume h: "pth \<noteq> [] \<and> (\<forall>d \<in> set pth. \<not> access_x os (d @ ''/'' @ cmd)) \<and>
    \<not> open_ok os (last (cmd # rest))"
  then have "path_loop os pth cmd 1 [] = Some (last pth @ ''/'' @ cmd)"
    by (intro path_loop_last) auto
  with h show "exec_command_child os (cmd # rest) pth 1 std_proc
            = Child_exit 1 \<lparr>fds = [Some Stdin, None, None], written = []\<rparr>"
    by (intro child_redirect_open_fails) auto
qed

theorem resolution_in_store_order_witness:
  "\<not> access_x (os_sample (\<lambda>n. 100) True) ''/usr/bin/ls'' \<and>
   access_x (os_sample (\<lambda>n. 100) True) ''/bin/ls'' \<and>
   execv_ok (os_sample (\<lambda>n. 100) True) ''/bin/ls'' \<and>
   path_loop (os_sample (\<lambda>n. 100) True) [''/usr/bin'', ''/bin'', ''/opt''] ''ls'' 0 [] = Some ''/bin/ls'' \<and>
   exec_command_child (os_sample (\<lambda>n. 100) True) [''ls'', ''-l'']
       [''/usr/bin'', ''/bin'', ''/opt''] 0 std_proc
     = Child_exec ''/bin/ls'' [''ls'', ''-l''] std_proc \<and>
   \<not> access_x (os_sample (\<lambda>n. 100) True) ''/usr/bin/cat'' \<and>
   \<not> access_x (os_sample (\<lambda>n. 100) True) ''/opt/cat'' \<and>
   exec_command_child (os_sample (\<lambda>n. 100) True) [''cat'', ''f''] [''/usr/bin'', ''/opt''] 0 std_proc
     = Child_exit 1 (write_error_child std_proc) \<and>
   \<not> access_x (os_sample (\<lambda>n. 100) True) ''/bin/nosuch'' \<and>
   open_ok (os_sample (\<lambda>n. 100) True) ''out'' \<and>
   \<not> execv_ok (os_sample (\<lambda>n. 100) True) ''/bin/nosuch'' \<and>
   exec_command_child (os_sample (\<lambda>n. 100) True) [''nosuch'', ''out''] [''/bin''] 1 std_proc
     = Child_exit 1 \<lparr>fds = [Some Stdin, None, None], written = [(File ''out'', error_message)]\<rparr> \<and>
   \<not> access_x (os_sample (\<lambda>n. 100) False) ''/bin/nosuch'' \<and>
   \<not> open_ok (os_sample (\<lambda>n. 100) False) ''out'' \<and>
   exec_command_child (os_sample (\<lambda>n. 100) False) [''nosuch'', ''out''] [''/bin''] 1 std_proc
     = Child_exit 1 \<lparr>fds = [Some Stdin, None, None], written = []\<rparr>"
proof -
  let ?os = "os_sample (\<lambda>n. 100) True"
  let ?ro = "os_sample (\<lambda>n. 100) False"
  have a: "\<not> access_x ?os ''/usr/bin/ls''" and b: "access_x ?os ''/bin/ls''"
    and c: "\<not> access_x ?os ''/usr/bin/cat''" and d: "\<not> access_x ?os ''/opt/cat''"
    and e: "execv_ok ?os ''/bin/ls''"
    and f: "\<not> access_x ?os ''/bin/nosuch''" and g: "open_ok ?os ''out''"
    and h: "\<not> execv_ok ?os ''/bin/nosuch''"
    and i: "\<not> access_x ?ro ''/bin/nosuch''" and j: "\<not> open_ok ?ro ''out''"
    by (simp_all add: os_sample_def)
  from a b have h1: "(\<forall>d' \<in> set [''/usr/bin'']. \<not> access_x ?os (d' @ ''/'' @ ''ls'')) \<and>
                     access_x ?os (''/bin'' @ ''/'' @ ''ls'')"
    by simp
  from h1 e have h1': "(\<forall>d' \<in> set [''/usr/bin'']. \<not> access_x ?os (d' @ ''/'' @ ''ls'')) \<and>
      access_x ?os (''/bin'' @ ''/'' @ ''ls'') \<and> (0::int) \<noteq> 1 \<and>
      execv_ok ?os (''/bin'' @ ''/'' @ ''ls'')"
    by simp
  from c d have h2': "[''/usr/bin'', ''/opt''] \<noteq> [] \<and>
      (\<forall>d \<in> set [''/usr/bin'', ''/opt'']. \<not> access_x ?os (d @ ''/'' @ ''cat'')) \<and> (0::int) \<noteq> 1"
    by simp
  from f g h have h3: "[''/bin''] \<noteq> [] \<and>
      (\<forall>d \<in> set [''/bin'']. \<not> access_x ?os (d @ ''/'' @ ''nosuch'')) \<and>
      open_ok ?os (last (''nosuch'' # [''out''])) \<and>
      \<not> execv_ok ?os (last [''/bin''] @ ''/'' @ ''nosuch'')"
    by simp
  from i j have h4: "[''/bin''] \<noteq> [] \<and>
      (\<forall>d \<in> set [''/bin'']. \<not> access_x ?ro (d @ ''/'' @ ''nosuch'')) \<and>
      \<not> open_ok ?ro (last (''nosuch'' # [''out'']))"
    by simp
  note t1 = resolution_in_store_order
    [where os = ?os and earlier = "[''/usr/bin'']" and d = "''/bin''" and later = "[''/opt'']"
       and cmd = "''ls''" and redirection = 0 and pa = "[]" and rest = "[''-l'']"
       and p = std_proc]
  note t2 = resolution_in_store_order
    [where os = ?os and cmd = "''cat''" and redirection = 0
       and pth = "[''/usr/bin'', ''/opt'']" and rest = "[''f'']" and p = std_proc]
  note t3 = resolution_in_store_order
    [where os = ?os and cmd = "''nosuch''" and pth = "[''/bin'']" and rest = "[''out'']"]
  note t4 = resolution_in_store_order
    [where os = ?ro and cmd = "''nosuch''" and pth = "[''/bin'']" and rest = "[''out'']"]
  from t1 h1
  have r1: "path_loop ?os ([''/usr/bin''] @ ''/bin'' # [''/opt'']) ''ls'' 0 []
              = Some (''/bin'' @ ''/'' @ ''ls'')"
    by blast
  from t1 h1'
  have r2: "exec_command_child ?os (''ls'' # [''-l'']) ([''/usr/bin''] @ ''/bin'' # [''/opt'']) 0 std_proc
              = Child_exec (''/bin'' @ ''/'' @ ''ls'') (''ls'' # [''-l'']) std_proc"
    by blast
  from t2 h2'
  have r3: "exec_command_child ?os (''cat'' # [''f'']) [''/usr/bin'', ''/opt''] 0 std_proc
              = Child_exit 1 (write_error_child std_proc)"
    by blast
  from t3 h3
  have r4: "exec_command_child ?os (''nosuch'' # [''out'']) [''/bin''] 1 std_proc
              = Child_exit 1 \<lparr>fds = [Some Stdin, None, None],
                   written = [(File (last (''nosuch'' # [''out''])), error_message)]\<rparr>"
    by blast
  from t4 h4
  have r5: "exec_command_child ?ro (''nosuch'' # [''out'']) [''/bin''] 1 std_proc
              = Child_exit 1 \<lparr>fds = [Some Stdin, None, None], written = []\<rparr>"
    by blast
  from r1 r2 r3 r4 r5 a b c d e f g h i j show ?thesis by simp
qed

section \<open>Redirection in the child\<close>

lemma child_redirect:
  assumes "path_loop os pth cmd 1 [] = Some pa" and "pth \<noteq> []"
    and "open_ok os (last (cmd # rest))" and "execv_ok os pa"
  shows "exec_command_child os (cmd # rest) pth 1 std_proc
           = Child_exec pa (butlast (cmd # rest))
               \<lparr>fds = [Some Stdin, Some (File (last (cmd # rest))), None], written = []\<rparr>"
proof -
  have i: "nat (count_tokens (cmd # rest) - 1) = length rest"
    by (simp add: count_tokens_def)
  have l: "(cmd # rest) ! length rest = last (cmd # rest)"
    using last_conv_nth [of "cmd # rest"] by simp
  have b: "take (length rest) (cmd # rest) = butlast (cmd # rest)"
    using butlast_conv_take [of "cmd # rest"] by simp
  from assms(2) have n: "count_tokens pth \<noteq> 0" by (simp add: count_tokens_def)
  show ?thesis
    unfolding exec_command_child_def Let_def i l b
    using assms n
    by (simp add: std_proc_def close_fd_def open_file_def)
qed

text \<open>
  C4. A child with a redirection that resolves its command, opens the target and
  replaces its image runs the image with the tokens in front of the file name as
  argument vector and with descriptor 1 on the target file. Descriptor 2 is closed at
  that point: \<open>close(2)\<close> is followed by a single \<open>open\<close>, which yields descriptor 1, so
  the standard error stream is not redirected to the file.
\<close>

theorem redirection_leaves_stderr_closed:
  "path_loop os pth cmd 1 [] = Some pa \<and> pth \<noteq> [] \<and>
   open_ok os (last (cmd # rest)) \<and> execv_ok os pa
     \<longrightarrow> exec_command_child os (cmd # rest) pth 1 std_proc
           = Child_exec pa (butlast (cmd # rest))
               \<lparr>fds = [Some Stdin, Some (File (last (cmd # rest))), None], written = []\<rparr>"
  using child_redirect by blast

theorem redirection_leaves_stderr_closed_witness:
  "process (os_sample (\<lambda>n. 100 + int n) True) ''ls > out.txt\<newline>'' shell0
     = (Returned,
        \<lparr>path = [''/bin''], exit_not_called = 1, forks = 1,
         trace = [Spawned 100 [''ls'', ''out.txt''] [''/bin''] 1, Waited (Pid 100)]\<rparr>) \<and>
   path_loop (os_sample (\<lambda>n. 100 + int n) True) [''/bin''] ''ls'' 1 [] = Some ''/bin/ls'' \<and>
   open_ok (os_sample (\<lambda>n. 100 + int n) True) ''out.txt'' \<and>
   execv_ok (os_sample (\<lambda>n. 100 + int n) True) ''/bin/ls'' \<and>
   exec_command_child (os_sample (\<lambda>n. 100 + int n) True) [''ls'', ''out.txt''] [''/bin''] 1 std_proc
     = Child_exec ''/bin/ls'' [''ls'']
         \<lparr>fds = [Some Stdin, Some (File ''out.txt''), None], written = []\<rparr>"
proof -
  let ?os = "os_sample (\<lambda>n. 100 + int n) True"
  have a: "path_loop ?os [''/bin''] ''ls'' 1 [] = Some ''/bin/ls''"
    by (simp add: os_sample_def)
  have b: "open_ok ?os ''out.txt''" and c: "execv_ok ?os ''/bin/ls''"
    by (simp_all add: os_sample_def)
  have d: "process ?os ''ls > out.txt\<newline>'' shell0
     = (Returned,
        \<lparr>path = [''/bin''], exit_not_called = 1, forks = 1,
         trace = [Spawned 100 [''ls'', ''out.txt''] [''/bin''] 1, Waited (Pid 100)]\<rparr>)"
    by (simp add: line_defs exec_command_def os_sample_def shell0_def upt_rec)
  from redirection_leaves_stderr_closed
         [of ?os "[''/bin'']" "''ls''" "''/bin/ls''" "[''out.txt'']"] a b c
  have "exec_command_child ?os (''ls'' # [''out.txt'']) [''/bin''] 1 std_proc
          = Child_exec ''/bin/ls'' (butlast (''ls'' # [''out.txt'']))
              \<lparr>fds = [Some Stdin, Some (File (last (''ls'' # [''out.txt'']))), None], written = []\<rparr>"
    by simp
  with a b c d show ?thesis by simp
qed

section \<open>Lines on which the code departs from its description\<close>

text \<open>
  C1. On the line \<open>& cmd\<close> the separator check returns 1, not \<open>-1\<close>: \<open>strtok\<close> skips the
  leading separator, so the text behind it is taken for the text in front of it. The
  line is not rejected: \<open>cmd\<close> is launched without any error line, and the loop then
  reads the NULL entry behind the only sub-command.
\<close>

theorem leading_separator_not_rejected:
  "check_parallel ''& cmd\<newline>'' = 1 \<and>
   process os ''& cmd\<newline>'' st
     = (Crashed Null_dereference, snd (exec_command os [''cmd''] (path st) 0 st))"
  by (simp add: line_defs split: prod.splits)

text \<open>
  C9. The line \<open>a && b\<close> has two separators and passes the separator check, but splitting
  it yields two entries, not three: the loop over the indices 0, 1, 2 launches \<open>a\<close> and
  \<open>b\<close> and then hands the NULL terminator to \<open>check_redirect\<close>.
\<close>

theorem loop_reads_null_terminator:
  "check_parallel ''a && b\<newline>'' = 2 \<and>
   parse_cmds ''a && b\<newline>'' = [''a '', '' b\<newline>''] \<and>
   fst (process os ''a && b\<newline>'' st) = Crashed Null_dereference"
  by (simp add: line_defs split: prod.splits)

text \<open>
  C3. The lines \<open>cmd >\<close>, \<open>> file\<close> and \<open>cmd > f1 f2\<close> are rejected with one error line and
  nothing else. But the check also accepts a line whose two file names are separated by a
  tab, and a line with nothing but a blank behind the operator: both are launched with
  redirection 1.
\<close>

theorem redirect_check_accepts_too_much:
  "check_redirect ''cmd >\<newline>'' = - 1 \<and>
   process os ''cmd >\<newline>'' st = (Returned, write_error st) \<and>
   check_redirect ''> file\<newline>'' = - 1 \<and>
   process os ''> file\<newline>'' st = (Returned, write_error st) \<and>
   check_redirect ''cmd > f1 f2\<newline>'' = 2 \<and>
   process os ''cmd > f1 f2\<newline>'' st = (Returned, write_error st) \<and>
   check_redirect (''ls > a'' @ [CHR 0x09] @ ''b\<newline>'') = 1 \<and>
   process (os_sample (\<lambda>n. 100 + int n) True) (''ls > a'' @ [CHR 0x09] @ ''b\<newline>'') shell0
     = (Returned,
        \<lparr>path = [''/bin''], exit_not_called = 1, forks = 1,
         trace = [Spawned 100 [''ls'', ''a'', ''b''] [''/bin''] 1, Waited (Pid 100)]\<rparr>) \<and>
   check_redirect ''ls > \<newline>'' = 1 \<and>
   process (os_sample (\<lambda>n. 100 + int n) True) ''ls > \<newline>'' shell0
     = (Returned,
        \<lparr>path = [''/bin''], exit_not_called = 1, forks = 1,
         trace = [Spawned 100 [''ls''] [''/bin''] 1, Waited (Pid 100)]\<rparr>)"
  by (simp add: line_defs exec_command_def os_sample_def shell0_def upt_rec)

text \<open>
  The built-in \<open>exit\<close> of a parallel line hands the whole pid array to the waiting loop,
  and a failed \<open>fork\<close> hands its negative result back to \<open>process\<close>, which stores it.
\<close>

lemma exit_in_group_waits_every_slot:
  "0 < n \<Longrightarrow> dash_exit2 [''exit''] n pid st
     = (Exited 0, wait_for_cmds pid n (st\<lparr>exit_not_called := 0\<rparr>))"
  by (simp add: dash_exit2_def count_tokens_def)

lemma failed_fork_returns_sentinel:
  "fork_pid os (forks st) < 0 \<Longrightarrow> exec_command os arr pth r st
     = (fork_pid os (forks st), write_error (st\<lparr>forks := Suc (forks st)\<rparr>))"
  by (simp add: exec_command_def Let_def)

text \<open>
  C2. On the line \<open>sleep 1 & exit\<close> the built-in \<open>exit\<close> runs the waiting loop over both
  slots of the pid array before the interpreter exits with status 0: over the slot that
  holds the pid of \<open>sleep\<close>, and over its own slot, which was never assigned.
\<close>

theorem exit_waits_on_unset_slot:
  "process (os_sample (\<lambda>n. 100 + int n) True) ''sleep 1 & exit\<newline>'' shell0
     = (Exited 0,
        \<lparr>path = [''/bin''], exit_not_called = 0, forks = 1,
         trace = [Spawned 100 [''sleep'', ''1''] [''/bin''] 0, Waited (Pid 100), Waited Unset]\<rparr>)"
  by (simp add: line_defs exec_command_def os_sample_def shell0_def upt_rec)

text \<open>
  C7. When \<open>fork\<close> fails on the line \<open>ls\<close>, one error line is written and no child exists,
  yet the value \<open>-1\<close> is stored in the pid array and the waiting loop is run on it. The
  same happens to the first sub-command of \<open>ls & ls\<close> when only the first \<open>fork\<close> fails.
\<close>

theorem failed_fork_is_waited_on:
  "process (os_sample (\<lambda>n. - 1) True) ''ls\<newline>'' shell0
     = (Returned,
        \<lparr>path = [''/bin''], exit_not_called = 1, forks = 1,
         trace = [Error_line, Waited (Pid (- 1))]\<rparr>) \<and>
   process (os_sample (\<lambda>n. if n = 0 then - 1 else 100 + int n) True) ''ls & ls\<newline>'' shell0
     = (Returned,
        \<lparr>path = [''/bin''], exit_not_called = 1, forks = 2,
         trace = [Error_line, Spawned 101 [''ls''] [''/bin''] 0,
                  Waited (Pid (- 1)), Waited (Pid 101)]\<rparr>)"
  by (simp add: line_defs exec_command_def os_sample_def shell0_def upt_rec)

end
